theory Spec2Isabelle
  imports Complex_Main "HOL-Library.Word" "HOL-Library.Multiset"
begin

section \<open>Foliated triangulations: the data model of S3Triangulation.h\<close>

text \<open>
  The header works on a CGAL Delaunay triangulation through its interface only. The
  triangulation is a record of what that interface delivers: the finite cells and finite
  edges in iteration order, \<open>ch->vertex(i)\<close>, \<open>cit->is_valid()\<close>, the cell payload
  \<open>cit->info()\<close>, the vertex payload \<open>v->info()\<close> (the timeslice) and \<open>D3->is_valid()\<close>.
  \<open>unsigned\<close> is a 32-bit word, so \<open>++\<close> and \<open>-\<close> wrap and \<open><\<close> compares unsigned.
  An edge is CGAL's triple: a cell handle and the indices of its two endpoints in the cell.
  A cell handle is the position of the cell in the engine's container of cells, which the
  iterator scans by increasing position: \<open>finite_cells\<close> lists the finite cells as the
  iterator meets them.
\<close>

type_synonym unsigned = "32 word"
type_synonym vertex_handle = nat
type_synonym cell_handle = nat

record delaunay =
  finite_cells :: "cell_handle list"
  finite_edges :: "(cell_handle \<times> nat \<times> nat) list"
  vertex :: "cell_handle \<Rightarrow> nat \<Rightarrow> vertex_handle"
  cell_is_valid :: "cell_handle \<Rightarrow> bool"
  cell_info :: "cell_handle \<Rightarrow> unsigned"
  info :: "vertex_handle \<Rightarrow> unsigned"
  is_valid :: bool

text \<open>
  Insertion and removal belong to the engine, which is not part of the header: they are
  parameters of the functions that call them.
\<close>

record 'p engine =
  engine_insert :: "delaunay \<Rightarrow> 'p list \<Rightarrow> unsigned list \<Rightarrow> delaunay"
  engine_remove :: "delaunay \<Rightarrow> vertex_handle \<Rightarrow> delaunay"

datatype error = Division_by_zero | Assert_simplices_per_timeslice | Assert_D3_is_valid | Length_error

section \<open>classify_edges\<close>

text \<open>
  One step of the loop over the finite edges: the timeslices of the two endpoints are
  compared; equal ones increment \<open>*N1_SL\<close>, different ones \<open>*N1_TL\<close>. The counters are the
  caller's, passed in and returned; the triangulation is returned as the call leaves it.
\<close>

fun classify_edges_loop ::
  "delaunay \<Rightarrow> (cell_handle \<times> nat \<times> nat) list \<Rightarrow> unsigned \<times> unsigned \<Rightarrow> unsigned \<times> unsigned" where
  "classify_edges_loop D3 [] (N1_TL, N1_SL) = (N1_TL, N1_SL)"
| "classify_edges_loop D3 (eit # rest) (N1_TL, N1_SL) =
     (let ch = fst eit;
          time1 = info D3 (vertex D3 ch (fst (snd eit)));
          time2 = info D3 (vertex D3 ch (snd (snd eit)))
      in if time1 = time2
         then classify_edges_loop D3 rest (N1_TL, N1_SL + 1)
         else classify_edges_loop D3 rest (N1_TL + 1, N1_SL))"

definition classify_edges :: "delaunay \<Rightarrow> unsigned \<Rightarrow> unsigned \<Rightarrow> delaunay \<times> unsigned \<times> unsigned" where
  "classify_edges D3 N1_TL N1_SL =
     (case classify_edges_loop D3 (finite_edges D3) (N1_TL, N1_SL) of
        (timelike_count, spacelike_count) \<Rightarrow> (D3, timelike_count, spacelike_count))"

text \<open>The spec's words: an edge is spacelike when its endpoint labels are equal.\<close>

definition spacelike :: "delaunay \<Rightarrow> cell_handle \<times> nat \<times> nat \<Rightarrow> bool" where
  "spacelike D3 e = (info D3 (vertex D3 (fst e) (fst (snd e))) = info D3 (vertex D3 (fst e) (snd (snd e))))"

definition timelike :: "delaunay \<Rightarrow> cell_handle \<times> nat \<times> nat \<Rightarrow> bool" where
  "timelike D3 e = (\<not> spacelike D3 e)"

section \<open>classify_3_simplices\<close>

text \<open>
  The four timeslices of a cell are pushed into a list and sorted; the last one is the
  maximum and is popped with \<open>max_values = 1\<close>; the while loop pops the rest from the
  back, counting those equal to the maximum in \<open>max_values\<close> and the others in
  \<open>min_values\<close>.
\<close>

definition timevalues_of :: "delaunay \<Rightarrow> cell_handle \<Rightarrow> unsigned list" where
  "timevalues_of D3 cit = map (\<lambda>i. info D3 (vertex D3 cit i)) [0..<4]"

function pop_loop :: "unsigned \<Rightarrow> unsigned list \<Rightarrow> unsigned \<times> unsigned \<Rightarrow> unsigned \<times> unsigned" where
  "pop_loop max_time timevalues (max_values, min_values) =
     (if timevalues = [] then (max_values, min_values)
      else let current_time = last timevalues
           in if current_time = max_time
              then pop_loop max_time (butlast timevalues) (max_values + 1, min_values)
              else pop_loop max_time (butlast timevalues) (max_values, min_values + 1))"
  by pat_completeness auto
termination
  by (relation "measure (\<lambda>(m, tv, c). length tv)") auto

declare pop_loop.simps [simp del]

definition max_values_of :: "delaunay \<Rightarrow> cell_handle \<Rightarrow> unsigned" where
  "max_values_of D3 cit =
     (let timevalues = sort (timevalues_of D3 cit);
          max_time = last timevalues
      in fst (pop_loop max_time (butlast timevalues) (1, 0)))"

text \<open>
  The state of a classification pass: the triangulation (the cell payload is written) and
  the three vectors of cell handles.
\<close>

type_synonym classification = "delaunay \<times> cell_handle list \<times> cell_handle list \<times> cell_handle list"

definition classify_cell :: "cell_handle \<Rightarrow> classification \<Rightarrow> classification" where
  "classify_cell cit s =
     (case s of (D3, three_one, two_two, one_three) \<Rightarrow>
        let max_values = max_values_of D3 cit
        in if max_values = 3
           then (D3\<lparr>cell_info := (cell_info D3)(cit := 13)\<rparr>, three_one, two_two, one_three @ [cit])
           else if max_values = 2
           then (D3\<lparr>cell_info := (cell_info D3)(cit := 22)\<rparr>, three_one, two_two @ [cit], one_three)
           else (D3\<lparr>cell_info := (cell_info D3)(cit := 31)\<rparr>, three_one @ [cit], two_two, one_three))"

fun classify_loop :: "cell_handle list \<Rightarrow> classification \<Rightarrow> classification" where
  "classify_loop [] s = s"
| "classify_loop (cit # rest) s = classify_loop rest (classify_cell cit s)"

definition classify_3_simplices ::
  "delaunay \<Rightarrow> cell_handle list \<Rightarrow> cell_handle list \<Rightarrow> cell_handle list \<Rightarrow> classification" where
  "classify_3_simplices D3 three_one two_two one_three =
     classify_loop (finite_cells D3) (D3, three_one, two_two, one_three)"

definition reclassify_3_simplices ::
  "delaunay \<Rightarrow> cell_handle list \<Rightarrow> cell_handle list \<Rightarrow> cell_handle list \<Rightarrow> classification" where
  "reclassify_3_simplices D3 three_one two_two one_three = classify_3_simplices D3 [] [] []"

text \<open>
  The spec's words: \<open>max_count\<close> is the number of the four vertices whose label equals the
  largest label of the simplex.
\<close>

definition max_label :: "delaunay \<Rightarrow> cell_handle \<Rightarrow> unsigned" where
  "max_label D3 c = Max (set (timevalues_of D3 c))"

definition min_label :: "delaunay \<Rightarrow> cell_handle \<Rightarrow> unsigned" where
  "min_label D3 c = Min (set (timevalues_of D3 c))"

definition max_count :: "delaunay \<Rightarrow> cell_handle \<Rightarrow> nat" where
  "max_count D3 c = length (filter (\<lambda>t. t = max_label D3 c) (timevalues_of D3 c))"

section \<open>check_timeslices\<close>

text \<open>
  The inner loop over the four vertices of a cell, started from the timeslice of vertex 0:
  two independent tests per vertex, one lowering \<open>min_time\<close>, one raising \<open>max_time\<close>.
\<close>

definition min_max_step :: "delaunay \<Rightarrow> cell_handle \<Rightarrow> nat \<Rightarrow> unsigned \<times> unsigned \<Rightarrow> unsigned \<times> unsigned" where
  "min_max_step D3 cit i mm =
     (case mm of (min_time, max_time) \<Rightarrow>
        let current_time = info D3 (vertex D3 cit i);
            min_time = (if current_time < min_time then current_time else min_time);
            max_time = (if current_time > max_time then current_time else max_time)
        in (min_time, max_time))"

definition cell_min_max :: "delaunay \<Rightarrow> cell_handle \<Rightarrow> unsigned \<times> unsigned" where
  "cell_min_max D3 cit =
     (let min_time = info D3 (vertex D3 cit 0);
          max_time = min_time
      in fold (min_max_step D3 cit) [0..<4] (min_time, max_time))"

fun check_loop :: "delaunay \<Rightarrow> cell_handle list \<Rightarrow> unsigned \<times> unsigned \<Rightarrow> unsigned \<times> unsigned" where
  "check_loop D3 [] (valid, invalid) = (valid, invalid)"
| "check_loop D3 (cit # rest) (valid, invalid) =
     (if cell_is_valid D3 cit
      then (case cell_min_max D3 cit of (min_time, max_time) \<Rightarrow>
              if max_time - min_time \<noteq> 1
              then check_loop D3 rest (valid, invalid + 1)
              else check_loop D3 rest (valid + 1, invalid))
      else check_loop D3 rest (valid, invalid + 1))"

text \<open>
  \<open>assert(D3->is_valid())\<close> stops the program when the engine reports an invalid
  triangulation; otherwise the result is \<open>invalid == 0\<close>. The flag \<open>output\<close> only prints.
\<close>

definition check_timeslices :: "delaunay \<Rightarrow> bool \<Rightarrow> error + bool" where
  "check_timeslices D3 output =
     (case check_loop D3 (finite_cells D3) (0, 0) of (valid, invalid) \<Rightarrow>
        if \<not> is_valid D3 then Inl Assert_D3_is_valid
        else Inr (if invalid = 0 then True else False))"

text \<open>
  The spec's words: a structurally valid simplex is invalid when the difference between the
  largest and the smallest of its four labels is not 1; a simplex that fails the engine's
  validity predicate is invalid.
\<close>

definition foliation_invalid :: "delaunay \<Rightarrow> cell_handle \<Rightarrow> bool" where
  "foliation_invalid D3 c =
     (if cell_is_valid D3 c then uint (max_label D3 c) - uint (min_label D3 c) \<noteq> 1 else True)"

definition invalid_count :: "delaunay \<Rightarrow> nat" where
  "invalid_count D3 = length (filter (foliation_invalid D3) (finite_cells D3))"

section \<open>fix_timeslices\<close>

text \<open>
  \<open>max_vertex\<close> is declared before the loop over the cells and set to 0 once; inside a
  cell it is written only when a vertex has a timeslice above \<open>max_time\<close>, which starts at
  the timeslice of vertex 0.
\<close>

definition fix_vertex_step ::
  "delaunay \<Rightarrow> cell_handle \<Rightarrow> nat \<Rightarrow> unsigned \<times> unsigned \<times> unsigned \<Rightarrow> unsigned \<times> unsigned \<times> unsigned" where
  "fix_vertex_step D3 cit i s =
     (case s of (min_time, max_time, max_vertex) \<Rightarrow>
        let current_time = info D3 (vertex D3 cit i);
            min_time = (if current_time < min_time then current_time else min_time)
        in if current_time > max_time then (min_time, current_time, of_nat i)
           else (min_time, max_time, max_vertex))"

text \<open>
  What the body of the loop reads from one cell of the triangulation as it is at that
  moment: the new value of \<open>max_vertex\<close> and the vertex to remove, if any.
\<close>

definition fix_cell :: "delaunay \<Rightarrow> cell_handle \<Rightarrow> unsigned \<Rightarrow> unsigned \<times> vertex_handle option" where
  "fix_cell D3 cit max_vertex =
     (if cell_is_valid D3 cit
      then (let min_time = info D3 (vertex D3 cit 0);
                max_time = min_time
            in case fold (fix_vertex_step D3 cit) [0..<4] (min_time, max_time, max_vertex) of
                 (min_time, max_time, max_vertex) \<Rightarrow>
                   if max_time - min_time \<noteq> 1
                   then (max_vertex, Some (vertex D3 cit (unat max_vertex)))
                   else (max_vertex, None))
      else (max_vertex, None))"

text \<open>The body of the loop: \<open>D3->remove\<close> is called at once, inside the loop.\<close>

definition fix_step :: "'p engine \<Rightarrow> delaunay \<Rightarrow> cell_handle \<Rightarrow> unsigned \<Rightarrow> delaunay \<times> unsigned" where
  "fix_step eng D3 cit max_vertex =
     (case fix_cell D3 cit max_vertex of
        (max_vertex, None) \<Rightarrow> (D3, max_vertex)
      | (max_vertex, Some v) \<Rightarrow> (engine_remove eng D3 v, max_vertex))"

text \<open>
  \<open>++cit\<close> moves to the next finite cell of the triangulation as it is now, after the
  removal: the first finite cell at a higher position, or the end.
\<close>

definition next_cell :: "delaunay \<Rightarrow> cell_handle \<Rightarrow> cell_handle option" where
  "next_cell D3 cit = find (\<lambda>c. cit < c) (finite_cells D3)"

text \<open>
  The loop from the cell \<open>cit\<close> on. Every cell it visits is a cell of the live
  triangulation, and a removal can bring new cells at higher positions, so nothing in the
  header bounds the loop: a pass that never ends is the value \<open>None\<close>.
\<close>

partial_function (option) fix_from ::
  "'p engine \<Rightarrow> delaunay \<Rightarrow> cell_handle \<Rightarrow> unsigned \<Rightarrow> delaunay option" where
  "fix_from eng D3 cit max_vertex =
     (case fix_step eng D3 cit max_vertex of
        (D3', max_vertex') \<Rightarrow>
          (case next_cell D3' cit of
             None \<Rightarrow> Some D3'
           | Some cit' \<Rightarrow> fix_from eng D3' cit' max_vertex'))"

definition fix_timeslices :: "'p engine \<Rightarrow> delaunay \<Rightarrow> bool \<Rightarrow> delaunay option" where
  "fix_timeslices eng D3 output =
     (case finite_cells D3 of
        [] \<Rightarrow> Some D3
      | cit # rest \<Rightarrow> fix_from eng D3 cit 0)"


section \<open>make_2_sphere and make_S3_triangulation\<close>

text \<open>
  \<open>static_cast<unsigned int>(radius)\<close> truncates towards zero. The radii of the header
  are \<open>1.0 + i\<close> for an integer \<open>i\<close> below \<open>2^32\<close>, which a double holds exactly, so
  the radius is a real number here. The generator of random points is a parameter:
  \<open>gen radius j\<close> is the point it delivers at step \<open>j\<close>.
\<close>

definition unsigned_of_double :: "real \<Rightarrow> unsigned" where
  "unsigned_of_double r = of_int (if 0 \<le> r then \<lfloor>r\<rfloor> else \<lceil>r\<rceil>)"

function make_2_sphere_loop ::
  "(real \<Rightarrow> nat \<Rightarrow> 'p) \<Rightarrow> real \<Rightarrow> nat \<Rightarrow> nat \<Rightarrow> 'p list \<times> unsigned list \<Rightarrow> 'p list \<times> unsigned list" where
  "make_2_sphere_loop gen radius number_of_points j (vertices, timevalue) =
     (if j < number_of_points
      then make_2_sphere_loop gen radius number_of_points (j + 1)
             (vertices @ [gen radius j], timevalue @ [unsigned_of_double radius])
      else (vertices, timevalue))"
  by pat_completeness auto
termination
  by (relation "measure (\<lambda>(gen, radius, n, j, vt). n - j)") auto

declare make_2_sphere_loop.simps [simp del]

text \<open>
  \<open>number_of_points\<close> is an \<open>int\<close> compared with the \<open>size_t\<close> counter \<open>j\<close>: it is
  converted to 64 bits with its sign. A negative value is a bound of at least
  \<open>2^64 - 2^31\<close> calls of \<open>push_back\<close>, more elements than \<open>max_size()\<close> of any vector,
  so the loop ends in \<open>std::length_error\<close> at the latest (in \<open>std::bad_alloc\<close> when the
  memory runs out first): the call stops the program. Below that, the vectors are lists,
  and the exhaustion of memory is not modelled.
\<close>

definition make_2_sphere ::
  "(real \<Rightarrow> nat \<Rightarrow> 'p) \<Rightarrow> 'p list \<times> unsigned list \<Rightarrow> 32 word \<Rightarrow> real \<Rightarrow> bool \<Rightarrow>
   error + ('p list \<times> unsigned list)" where
  "make_2_sphere gen vt number_of_points radius output =
     (if sint number_of_points < 0 then Inl Length_error
      else Inr (make_2_sphere_loop gen radius (unat (scast number_of_points :: 64 word)) 0 vt))"

function spheres_loop ::
  "(real \<Rightarrow> nat \<Rightarrow> 'p) \<Rightarrow> 32 word \<Rightarrow> unsigned \<Rightarrow> bool \<Rightarrow> nat \<Rightarrow> 'p list \<times> unsigned list \<Rightarrow>
   error + ('p list \<times> unsigned list)" where
  "spheres_loop gen points timeslices output i vt =
     (if i < unat timeslices
      then (let radius = 1 + real i
            in case make_2_sphere gen vt points radius output of
                 Inl e \<Rightarrow> Inl e
               | Inr vt' \<Rightarrow> spheres_loop gen points timeslices output (i + 1) vt')
      else Inr vt)"
  by pat_completeness auto
termination
  by (relation "measure (\<lambda>(gen, points, timeslices, output, i, vt). unat timeslices - i)") auto

declare spheres_loop.simps [simp del]

text \<open>
  Lines 346 to 361 of \<open>make_S3_triangulation\<close>. \<open>points\<close> is the 32-bit product
  \<open>simplices_per_timeslice * 4\<close> read as an \<open>int\<close>, and \<open>total_points\<close> the 32-bit
  product \<open>points * timeslices\<close> read as an \<open>int\<close>. \<open>vertices.reserve(total_points)\<close>
  converts it to \<open>size_t\<close>: a negative value is a request for at least \<open>2^64 - 2^31\<close>
  elements, above \<open>max_size()\<close>, and \<open>reserve\<close> throws \<open>std::length_error\<close>, which
  nothing catches.
\<close>

definition generate_points ::
  "(real \<Rightarrow> nat \<Rightarrow> 'p) \<Rightarrow> unsigned \<Rightarrow> unsigned \<Rightarrow> bool \<Rightarrow> error + ('p list \<times> unsigned list)" where
  "generate_points gen simplices_per_timeslice timeslices output =
     (let points = simplices_per_timeslice * 4;
          total_points = points * timeslices
      in if sint total_points < 0 then Inl Length_error
         else spheres_loop gen points timeslices output 0 ([], []))"






section \<open>Example triangulations\<close>

text \<open>
  Four cells over eight vertices, the first four vertices in timeslice 1 and the others in
  timeslice 2: the cells have one, two, three and four vertices in their latest timeslice.
\<close>

definition example_D3 :: delaunay where
  "example_D3 =
     \<lparr>finite_cells = [0, 1, 2, 3],
      finite_edges = [(0, 0, 1), (0, 0, 3), (3, 0, 1)],
      vertex = (\<lambda>c i. [[0, 1, 2, 4], [0, 1, 4, 5], [0, 4, 5, 6], [4, 5, 6, 7]] ! c ! i),
      cell_is_valid = (\<lambda>c. True),
      cell_info = (\<lambda>c. 0),
      info = (\<lambda>v. [1, 1, 1, 1, 2, 2, 2, 2] ! v),
      is_valid = True\<rparr>"

text \<open>
  Two cells that share a face in timeslice 1: the first has its fourth vertex in timeslice
  2, the second has its first vertex in timeslice 3.
\<close>

definition stale_D3 :: delaunay where
  "stale_D3 =
     \<lparr>finite_cells = [0, 1],
      finite_edges = [],
      vertex = (\<lambda>c i. [[0, 1, 2, 3], [4, 0, 1, 2]] ! c ! i),
      cell_is_valid = (\<lambda>c. True),
      cell_info = (\<lambda>c. 0),
      info = (\<lambda>v. [1, 1, 1, 2, 3] ! v),
      is_valid = True\<rparr>"

text \<open>The example without its fourth cell: every cell spans the timeslices 1 and 2.\<close>

definition good_D3 :: delaunay where
  "good_D3 = example_D3\<lparr>finite_cells := [0, 1, 2]\<rparr>"

text \<open>A triangulation with \<open>2^32\<close> finite cells, none of which passes \<open>is_valid()\<close>.\<close>

definition big_D3 :: delaunay where
  "big_D3 =
     \<lparr>finite_cells = [0..<2 ^ 32],
      finite_edges = [],
      vertex = (\<lambda>c i. 4 * c + i),
      cell_is_valid = (\<lambda>c. False),
      cell_info = (\<lambda>c. 0),
      info = (\<lambda>v. 1),
      is_valid = True\<rparr>"

text \<open>
  Two stand-ins for the engine. The first leaves the triangulation as it is on every call.
  The second removes a vertex by deleting the cells that contain it.
\<close>

definition idle_engine :: "unit engine" where
  "idle_engine = \<lparr>engine_insert = (\<lambda>D3 vertices timevalue. D3), engine_remove = (\<lambda>D3 v. D3)\<rparr>"

definition drop_engine :: "unit engine" where
  "drop_engine =
     \<lparr>engine_insert = (\<lambda>D3 vertices timevalue. D3),
      engine_remove = (\<lambda>D3 v. D3\<lparr>finite_cells :=
         filter (\<lambda>c. v \<notin> set (map (vertex D3 c) [0..<4])) (finite_cells D3)\<rparr>)\<rparr>"

section \<open>Properties of the classification of simplices\<close>

lemma pop_loop_fst:
  "fst (pop_loop m tv (a, b)) = a + of_nat (length (filter (\<lambda>t. t = m) tv))"
proof (induction tv arbitrary: a b rule: rev_induct)
  case Nil
  show ?case by (subst pop_loop.simps) simp
next
  case (snoc x xs)
  show ?case by (subst pop_loop.simps) (simp add: snoc.IH)
qed

lemma sorted_last_Max:
  fixes ys :: "unsigned list"
  shows "sorted ys \<Longrightarrow> ys \<noteq> [] \<Longrightarrow> last ys = Max (set ys)"
proof (induction ys rule: rev_induct)
  case Nil
  then show ?case by simp
next
  case (snoc x xs)
  then have "\<forall>y\<in>set xs. y \<le> x" by (simp add: sorted_append)
  then have "Max (insert x (set xs)) = x" by (intro Max_eqI) auto
  then show ?case by simp
qed

lemma length_filter_sort:
  fixes xs :: "unsigned list"
  shows "length (filter P (sort xs)) = length (filter P xs)"
proof -
  have "mset (filter P (sort xs)) = mset (filter P xs)" by simp
  then have "size (mset (filter P (sort xs))) = size (mset (filter P xs))" by (rule arg_cong)
  then show ?thesis by (simp only: size_mset)
qed

lemma length_timevalues_of: "length (timevalues_of D3 c) = 4"
  by (simp add: timevalues_of_def)

lemma max_count_le: "max_count D3 c \<le> 4"
proof -
  have "max_count D3 c \<le> length (timevalues_of D3 c)"
    unfolding max_count_def by (rule length_filter_le)
  then show ?thesis by (simp add: length_timevalues_of)
qed

lemma max_values_of_max_count: "max_values_of D3 c = of_nat (max_count D3 c)"
proof -
  define xs where "xs = timevalues_of D3 c"
  define s where "s = sort xs"
  have ne: "s \<noteq> []"
  proof
    assume "s = []"
    then have "length (sort xs) = 0" by (simp add: s_def)
    then show False using length_timevalues_of [of D3 c] by (simp add: xs_def)
  qed
  have m: "last s = max_label D3 c"
    using sorted_last_Max [of s] ne by (simp add: s_def max_label_def xs_def)
  have bl: "butlast s @ [last s] = s"
    using ne by simp
  have "length (filter (\<lambda>t. t = last s) s) = length (filter (\<lambda>t. t = last s) xs)"
    by (simp only: s_def length_filter_sort)
  then have "length (filter (\<lambda>t. t = last s) (butlast s @ [last s])) = length (filter (\<lambda>t. t = last s) xs)"
    by (simp only: bl)
  then have "Suc (length (filter (\<lambda>t. t = last s) (butlast s))) = max_count D3 c"
    by (simp add: m max_count_def xs_def)
  then have "of_nat (max_count D3 c) = (1::unsigned) + of_nat (length (filter (\<lambda>t. t = last s) (butlast s)))"
    by (simp flip: of_nat_Suc)
  then show ?thesis
    unfolding max_values_of_def Let_def pop_loop_fst xs_def [symmetric] s_def [symmetric] by simp
qed

lemma unat_max_values_of: "unat (max_values_of D3 c) = max_count D3 c"
proof -
  have "max_count D3 c < 2 ^ 32" using max_count_le [of D3 c] by simp
  then show ?thesis by (simp add: max_values_of_max_count unat_of_nat)
qed

lemma max_values_of_eq_iff:
  assumes "n < 2 ^ 32"
  shows "(max_values_of D3 c = of_nat n) = (max_count D3 c = n)"
proof
  assume "max_values_of D3 c = of_nat n"
  then have "unat (max_values_of D3 c) = unat (of_nat n :: unsigned)" by simp
  then show "max_count D3 c = n" using assms by (simp add: unat_max_values_of unat_of_nat)
next
  assume "max_count D3 c = n"
  then show "max_values_of D3 c = of_nat n" by (simp add: max_values_of_max_count)
qed

lemma max_values_of_3: "(max_values_of D3 c = 3) = (max_count D3 c = 3)"
  using max_values_of_eq_iff [of 3 D3 c] by simp

lemma max_values_of_2: "(max_values_of D3 c = 2) = (max_count D3 c = 2)"
  using max_values_of_eq_iff [of 2 D3 c] by simp

lemma max_values_of_cell_info [simp]:
  "max_values_of (D3\<lparr>cell_info := f\<rparr>) c = max_values_of D3 c"
  by (simp add: max_values_of_def timevalues_of_def)

lemma max_count_cell_info [simp]: "max_count (D3\<lparr>cell_info := f\<rparr>) c = max_count D3 c"
  by (simp add: max_count_def max_label_def timevalues_of_def)

lemma cell_info_update_same: "cell_info (D3\<lparr>cell_info := g\<rparr>) = g"
  by simp

lemma classify_cell_eq:
  "classify_cell c (D3, a, b, d) =
     (D3\<lparr>cell_info := (cell_info D3)
        (c := if max_count D3 c = 3 then 13 else if max_count D3 c = 2 then 22 else 31)\<rparr>,
      a @ filter (\<lambda>x. max_count D3 x \<noteq> 3 \<and> max_count D3 x \<noteq> 2) [c],
      b @ filter (\<lambda>x. max_count D3 x = 2) [c],
      d @ filter (\<lambda>x. max_count D3 x = 3) [c])"
  by (simp add: classify_cell_def Let_def max_values_of_3 max_values_of_2)

lemma classify_loop_eq:
  "classify_loop cs (D3, a, b, d) =
     (D3\<lparr>cell_info := (\<lambda>x. if x \<in> set cs
          then (if max_count D3 x = 3 then 13 else if max_count D3 x = 2 then 22 else 31)
          else cell_info D3 x)\<rparr>,
      a @ filter (\<lambda>x. max_count D3 x \<noteq> 3 \<and> max_count D3 x \<noteq> 2) cs,
      b @ filter (\<lambda>x. max_count D3 x = 2) cs,
      d @ filter (\<lambda>x. max_count D3 x = 3) cs)"
proof (induction cs arbitrary: D3 a b d)
  case Nil
  show ?case by simp
next
  case (Cons c cs)
  define tag :: "cell_handle \<Rightarrow> unsigned"
    where "tag = (\<lambda>x. if max_count D3 x = 3 then 13 else if max_count D3 x = 2 then 22 else 31)"
  have step: "classify_cell c (D3, a, b, d) =
     (D3\<lparr>cell_info := (cell_info D3)(c := tag c)\<rparr>,
      a @ filter (\<lambda>x. max_count D3 x \<noteq> 3 \<and> max_count D3 x \<noteq> 2) [c],
      b @ filter (\<lambda>x. max_count D3 x = 2) [c],
      d @ filter (\<lambda>x. max_count D3 x = 3) [c])"
    by (simp only: classify_cell_eq tag_def)
  have ih: "classify_loop cs (D3\<lparr>cell_info := g\<rparr>, a', b', d') =
     (D3\<lparr>cell_info := (\<lambda>x. if x \<in> set cs then tag x else g x)\<rparr>,
      a' @ filter (\<lambda>x. max_count D3 x \<noteq> 3 \<and> max_count D3 x \<noteq> 2) cs,
      b' @ filter (\<lambda>x. max_count D3 x = 2) cs,
      d' @ filter (\<lambda>x. max_count D3 x = 3) cs)" for g a' b' d'
    unfolding tag_def
    using Cons.IH [of "D3\<lparr>cell_info := g\<rparr>" a' b' d']
    unfolding max_count_cell_info cell_info_update_same by simp
  have upd: "(\<lambda>x. if x \<in> set cs then tag x else ((cell_info D3)(c := tag c)) x)
     = (\<lambda>x. if x \<in> set (c # cs) then tag x else cell_info D3 x)"
    by (rule ext) simp
  have "classify_loop (c # cs) (D3, a, b, d) =
     (D3\<lparr>cell_info := (\<lambda>x. if x \<in> set (c # cs) then tag x else cell_info D3 x)\<rparr>,
      a @ filter (\<lambda>x. max_count D3 x \<noteq> 3 \<and> max_count D3 x \<noteq> 2) (c # cs),
      b @ filter (\<lambda>x. max_count D3 x = 2) (c # cs),
      d @ filter (\<lambda>x. max_count D3 x = 3) (c # cs))"
    unfolding classify_loop.simps step ih upd by simp
  then show ?case by (simp only: tag_def)
qed

lemma classify_3_simplices_eq:
  "classify_3_simplices D3 a b d =
     (D3\<lparr>cell_info := (\<lambda>x. if x \<in> set (finite_cells D3)
          then (if max_count D3 x = 3 then 13 else if max_count D3 x = 2 then 22 else 31)
          else cell_info D3 x)\<rparr>,
      a @ filter (\<lambda>x. max_count D3 x \<noteq> 3 \<and> max_count D3 x \<noteq> 2) (finite_cells D3),
      b @ filter (\<lambda>x. max_count D3 x = 2) (finite_cells D3),
      d @ filter (\<lambda>x. max_count D3 x = 3) (finite_cells D3))"
  by (simp only: classify_3_simplices_def classify_loop_eq)

lemma length_filter_three_way:
  "length (filter (\<lambda>x. f x \<noteq> (3::nat) \<and> f x \<noteq> 2) xs) + length (filter (\<lambda>x. f x = 2) xs)
     + length (filter (\<lambda>x. f x = 3) xs) = length xs"
  by (induction xs) auto

lemma mset_filter_three_way:
  "mset (filter (\<lambda>x. f x \<noteq> (3::nat) \<and> f x \<noteq> 2) xs) + mset (filter (\<lambda>x. f x = 2) xs)
     + mset (filter (\<lambda>x. f x = 3) xs) = mset xs"
  by (induction xs) auto

lemma example_D3_classified:
  "snd (classify_3_simplices example_D3 [] [] []) = ([0, 3], [1], [2])"
  by code_simp

lemma example_D3_max_count:
  "map (max_count example_D3) [0, 1, 2, 3] = [1, 2, 3, 4]"
  by code_simp

lemma example_D3_classify_eq:
  "classify_3_simplices example_D3 [] [] [] =
     (fst (classify_3_simplices example_D3 [] [] []), [0, 3], [1], [2])"
  using example_D3_classified by (simp add: prod_eq_iff)

text \<open>
  Claim C2. After a classification pass that starts with the three vectors empty, the
  sizes of \<open>three_one\<close>, \<open>two_two\<close> and \<open>one_three\<close> add up to the number of finite
  cells, every finite cell is in one of them, and no cell is in two of them: as multisets
  the three vectors together are the finite cells, and when the iterator delivers each cell
  once the vectors are pairwise disjoint and free of repetitions.
\<close>

theorem classify_3_simplices_partition:
  assumes "classify_3_simplices D3 [] [] [] = (D3', three_one, two_two, one_three)"
  shows "length three_one + length two_two + length one_three = length (finite_cells D3')
    \<and> mset three_one + mset two_two + mset one_three = mset (finite_cells D3')
    \<and> set three_one \<union> set two_two \<union> set one_three = set (finite_cells D3')
    \<and> (distinct (finite_cells D3') \<longrightarrow>
         distinct three_one \<and> distinct two_two \<and> distinct one_three
         \<and> set three_one \<inter> set two_two = {} \<and> set three_one \<inter> set one_three = {}
         \<and> set two_two \<inter> set one_three = {})"
proof -
  let ?cs = "finite_cells D3"
  from assms have cells: "finite_cells D3' = ?cs"
    and t31: "three_one = filter (\<lambda>x. max_count D3 x \<noteq> 3 \<and> max_count D3 x \<noteq> 2) ?cs"
    and t22: "two_two = filter (\<lambda>x. max_count D3 x = 2) ?cs"
    and t13: "one_three = filter (\<lambda>x. max_count D3 x = 3) ?cs"
    by (auto simp: classify_3_simplices_eq)
  have "length three_one + length two_two + length one_three = length ?cs"
    unfolding t31 t22 t13 by (rule length_filter_three_way)
  moreover have m: "mset three_one + mset two_two + mset one_three = mset ?cs"
    unfolding t31 t22 t13 by (rule mset_filter_three_way)
  moreover have "set three_one \<union> set two_two \<union> set one_three = set ?cs"
    unfolding t31 t22 t13 by auto
  moreover have "distinct three_one \<and> distinct two_two \<and> distinct one_three" if "distinct ?cs"
    using that unfolding t31 t22 t13 by simp
  moreover have "set three_one \<inter> set two_two = {} \<and> set three_one \<inter> set one_three = {}
         \<and> set two_two \<inter> set one_three = {}"
    unfolding t31 t22 t13 by auto
  ultimately show ?thesis by (simp add: cells)
qed

text \<open>The four cells of the example: two of type (3,1), one (2,2), one (1,3).\<close>

theorem classify_3_simplices_partition_witness:
  "distinct (finite_cells (fst (classify_3_simplices example_D3 [] [] [])))
   \<and> snd (classify_3_simplices example_D3 [] [] []) = ([0, 3], [1], [2])
   \<and> length [0, 3 :: nat] + length [1 :: nat] + length [2 :: nat]
       = length (finite_cells (fst (classify_3_simplices example_D3 [] [] [])))
   \<and> set [0, 3 :: nat] \<inter> set [1] = {} \<and> set [0, 3 :: nat] \<inter> set [2] = {} \<and> set [1 :: nat] \<inter> set [2] = {}"
proof -
  have d: "distinct (finite_cells (fst (classify_3_simplices example_D3 [] [] [])))"
    by code_simp
  show ?thesis
    using classify_3_simplices_partition [OF example_D3_classify_eq] d example_D3_classified
    by simp
qed


lemma all_equal_max_count:
  assumes "\<forall>i<4. info D3 (vertex D3 c i) = t"
  shows "max_count D3 c = 4"
proof -
  have "timevalues_of D3 c = [t, t, t, t]"
    using assms by (simp add: timevalues_of_def upt_rec)
  then show ?thesis
    by (simp add: max_count_def max_label_def)
qed

text \<open>
  Claim C3. For every finite cell the counter \<open>max_values\<close> computed by sorting and
  popping is the number of its four vertices whose timeslice is the largest of the cell;
  when that number is 3 the cell is tagged 13 and appended to \<open>one_three\<close>, when it is 2
  the cell is tagged 22 and appended to \<open>two_two\<close>, when it is 1 the cell is tagged 31 and
  appended to \<open>three_one\<close>. The tag is the one the cell carries after the whole pass.
\<close>

theorem classify_3_simplices_by_max_count:
  assumes "classify_3_simplices D3 three_one two_two one_three = (D3', three_one', two_two', one_three')"
    and "c \<in> set (finite_cells D3)"
  shows "unat (max_values_of D3 c) = max_count D3 c
    \<and> (max_count D3 c = 3 \<longrightarrow> cell_info D3' c = 13
          \<and> classify_cell c (D3, three_one, two_two, one_three)
              = (D3\<lparr>cell_info := (cell_info D3)(c := 13)\<rparr>, three_one, two_two, one_three @ [c])
          \<and> c \<in> set (drop (length one_three) one_three'))
    \<and> (max_count D3 c = 2 \<longrightarrow> cell_info D3' c = 22
          \<and> classify_cell c (D3, three_one, two_two, one_three)
              = (D3\<lparr>cell_info := (cell_info D3)(c := 22)\<rparr>, three_one, two_two @ [c], one_three)
          \<and> c \<in> set (drop (length two_two) two_two'))
    \<and> (max_count D3 c = 1 \<longrightarrow> cell_info D3' c = 31
          \<and> classify_cell c (D3, three_one, two_two, one_three)
              = (D3\<lparr>cell_info := (cell_info D3)(c := 31)\<rparr>, three_one @ [c], two_two, one_three)
          \<and> c \<in> set (drop (length three_one) three_one'))"
proof -
  let ?cs = "finite_cells D3"
  from assms(1) have info: "cell_info D3' c = (if max_count D3 c = 3 then 13 else if max_count D3 c = 2 then 22 else 31)"
    and t31: "three_one' = three_one @ filter (\<lambda>x. max_count D3 x \<noteq> 3 \<and> max_count D3 x \<noteq> 2) ?cs"
    and t22: "two_two' = two_two @ filter (\<lambda>x. max_count D3 x = 2) ?cs"
    and t13: "one_three' = one_three @ filter (\<lambda>x. max_count D3 x = 3) ?cs"
    using assms(2) by (auto simp: classify_3_simplices_eq)
  show ?thesis
    using assms(2) by (simp add: unat_max_values_of info t31 t22 t13 classify_cell_eq)
qed

text \<open>Cells 2, 1 and 0 of the example have three, two and one vertex in timeslice 2.\<close>

theorem classify_3_simplices_by_max_count_witness:
  "2 \<in> set (finite_cells example_D3) \<and> 1 \<in> set (finite_cells example_D3) \<and> 0 \<in> set (finite_cells example_D3)
   \<and> snd (classify_3_simplices example_D3 [] [] []) = ([0, 3], [1], [2])
   \<and> max_count example_D3 2 = 3 \<and> cell_info (fst (classify_3_simplices example_D3 [] [] [])) 2 = 13
   \<and> max_count example_D3 1 = 2 \<and> cell_info (fst (classify_3_simplices example_D3 [] [] [])) 1 = 22
   \<and> max_count example_D3 0 = 1 \<and> cell_info (fst (classify_3_simplices example_D3 [] [] [])) 0 = 31"
proof -
  have c: "2 \<in> set (finite_cells example_D3)" "1 \<in> set (finite_cells example_D3)"
    "0 \<in> set (finite_cells example_D3)"
    by (simp_all add: example_D3_def)
  have m: "max_count example_D3 2 = 3" "max_count example_D3 1 = 2" "max_count example_D3 0 = 1"
    using example_D3_max_count by simp_all
  show ?thesis
    using classify_3_simplices_by_max_count [OF example_D3_classify_eq c(1)]
      classify_3_simplices_by_max_count [OF example_D3_classify_eq c(2)]
      classify_3_simplices_by_max_count [OF example_D3_classify_eq c(3)]
      c m example_D3_classified
    by simp
qed

text \<open>
  Claim C9. A finite cell whose number of vertices in its largest timeslice is neither 3
  nor 2 takes the last branch: it is tagged 31 and appended to \<open>three_one\<close>. A cell whose
  four vertices share one timeslice has \<open>max_values = 4\<close>, is tagged 31 and is appended to
  \<open>three_one\<close> and to no other vector.
\<close>

theorem classify_3_simplices_final_branch:
  assumes "classify_3_simplices D3 three_one two_two one_three = (D3', three_one', two_two', one_three')"
    and "c \<in> set (finite_cells D3)"
  shows "(max_count D3 c \<noteq> 3 \<and> max_count D3 c \<noteq> 2 \<longrightarrow> cell_info D3' c = 31
          \<and> classify_cell c (D3, three_one, two_two, one_three)
              = (D3\<lparr>cell_info := (cell_info D3)(c := 31)\<rparr>, three_one @ [c], two_two, one_three)
          \<and> c \<in> set (drop (length three_one) three_one'))
    \<and> ((\<forall>i<4. info D3 (vertex D3 c i) = info D3 (vertex D3 c 0)) \<longrightarrow>
          max_count D3 c = 4 \<and> max_values_of D3 c = 4 \<and> cell_info D3' c = 31
          \<and> c \<in> set (drop (length three_one) three_one')
          \<and> c \<notin> set (drop (length two_two) two_two') \<and> c \<notin> set (drop (length one_three) one_three'))"
proof -
  let ?cs = "finite_cells D3"
  from assms(1) have info: "cell_info D3' c = (if max_count D3 c = 3 then 13 else if max_count D3 c = 2 then 22 else 31)"
    and t31: "three_one' = three_one @ filter (\<lambda>x. max_count D3 x \<noteq> 3 \<and> max_count D3 x \<noteq> 2) ?cs"
    and t22: "two_two' = two_two @ filter (\<lambda>x. max_count D3 x = 2) ?cs"
    and t13: "one_three' = one_three @ filter (\<lambda>x. max_count D3 x = 3) ?cs"
    using assms(2) by (auto simp: classify_3_simplices_eq)
  have first: "max_count D3 c \<noteq> 3 \<and> max_count D3 c \<noteq> 2 \<longrightarrow> cell_info D3' c = 31
          \<and> classify_cell c (D3, three_one, two_two, one_three)
              = (D3\<lparr>cell_info := (cell_info D3)(c := 31)\<rparr>, three_one @ [c], two_two, one_three)
          \<and> c \<in> set (drop (length three_one) three_one')"
    using assms(2) by (simp add: info t31 classify_cell_eq)
  have second: "max_count D3 c = 4 \<and> max_values_of D3 c = 4 \<and> cell_info D3' c = 31
          \<and> c \<in> set (drop (length three_one) three_one')
          \<and> c \<notin> set (drop (length two_two) two_two') \<and> c \<notin> set (drop (length one_three) one_three')"
    if "\<forall>i<4. info D3 (vertex D3 c i) = info D3 (vertex D3 c 0)"
  proof -
    have mc: "max_count D3 c = 4" using that by (rule all_equal_max_count)
    then show ?thesis
      using assms(2) by (simp add: info t31 t22 t13 max_values_of_max_count)
  qed
  from first second show ?thesis by blast
qed

text \<open>Cell 3 of the example has its four vertices in timeslice 2.\<close>

theorem classify_3_simplices_final_branch_witness:
  "3 \<in> set (finite_cells example_D3)
   \<and> snd (classify_3_simplices example_D3 [] [] []) = ([0, 3], [1], [2])
   \<and> map (\<lambda>i. info example_D3 (vertex example_D3 3 i)) [0, 1, 2, 3] = [2, 2, 2, 2]
   \<and> max_count example_D3 3 = 4
   \<and> cell_info (fst (classify_3_simplices example_D3 [] [] [])) 3 = 31
   \<and> 3 \<in> set (drop (length ([] :: nat list)) [0, 3 :: nat])"
proof -
  have c: "3 \<in> set (finite_cells example_D3)"
    by (simp add: example_D3_def)
  have labels: "map (\<lambda>i. info example_D3 (vertex example_D3 3 i)) [0, 1, 2, 3] = [2, 2, 2, 2]"
    by (simp add: example_D3_def)
  have eq: "\<forall>i<4. info example_D3 (vertex example_D3 3 i) = info example_D3 (vertex example_D3 3 0)"
  proof (intro allI impI)
    fix i :: nat
    assume "i < 4"
    then have "i = 0 \<or> i = 1 \<or> i = 2 \<or> i = 3" by arith
    then show "info example_D3 (vertex example_D3 3 i) = info example_D3 (vertex example_D3 3 0)"
      using labels by auto
  qed
  from classify_3_simplices_final_branch [OF example_D3_classify_eq c] eq
  have r: "max_count example_D3 3 = 4
    \<and> cell_info (fst (classify_3_simplices example_D3 [] [] [])) 3 = 31
    \<and> 3 \<in> set (drop (length ([] :: nat list)) [0, 3 :: nat])"
    by blast
  show ?thesis
    using r c labels example_D3_classified by simp
qed

section \<open>Properties of the classification of edges\<close>

lemma classify_edges_loop_eq:
  "classify_edges_loop D3 es (tc, sc) =
     (tc + of_nat (length (filter (timelike D3) es)), sc + of_nat (length (filter (spacelike D3) es)))"
  by (induction es arbitrary: tc sc) (simp_all add: timelike_def spacelike_def Let_def)

lemma classify_edges_eq:
  "classify_edges D3 tc sc =
     (D3, tc + of_nat (length (filter (timelike D3) (finite_edges D3))),
          sc + of_nat (length (filter (spacelike D3) (finite_edges D3))))"
  by (simp add: classify_edges_def classify_edges_loop_eq)

lemma timelike_spacelike_length:
  "length (filter (timelike D3) es) + length (filter (spacelike D3) es) = length es"
  by (induction es) (simp_all add: timelike_def)

lemma unat_add_of_nat:
  fixes a :: unsigned
  assumes "unat a + n < 2 ^ 32"
  shows "unat (a + of_nat n) = unat a + n"
proof -
  have n: "unat (of_nat n :: unsigned) = n"
    using assms by (simp add: unat_of_nat)
  have "unat a + unat (of_nat n :: unsigned) < 2 ^ LENGTH(32)"
    using assms by (simp add: n)
  then have "unat (a + of_nat n) = unat a + unat (of_nat n :: unsigned)"
    by (simp only: unat_add_lem)
  then show ?thesis by (simp add: n)
qed

text \<open>
  Claim C7, as stated, at the example with the timelike counter at 5 before the call: the
  counters end at 6 and 2, and their sum is not the number of finite edges, 3.
\<close>

theorem classify_edges_counterexample:
  "snd (classify_edges example_D3 5 0) = (6, 2)
   \<and> length (finite_edges example_D3) = 3
   \<and> unat (6 :: unsigned) + unat (2 :: unsigned) \<noteq> length (finite_edges example_D3)"
  by code_simp

text \<open>
  Claim C10, as stated, at the example with the counters at 2 and \<open>2^32 - 2\<close> before the
  call: the spacelike counter wraps to 0, so it is not its initial value plus 2, and the
  sum of the counters is the number of finite edges although neither counter was zero.
\<close>

theorem classify_edges_wrap_counterexample:
  "snd (classify_edges example_D3 2 4294967294) = (3, 0)
   \<and> unat (3 :: unsigned) + unat (0 :: unsigned) = length (finite_edges example_D3)
   \<and> (2 :: unsigned) \<noteq> 0 \<and> (4294967294 :: unsigned) \<noteq> 0"
  by code_simp

text \<open>
  Claim C7, amended. Each finite edge increments the spacelike counter when its two
  endpoint labels are equal and the timelike counter otherwise; the triangulation is
  returned unchanged; after a call made with both counters at zero on a triangulation with
  fewer than \<open>2^32\<close> finite edges, the counters are the numbers of timelike and of spacelike
  finite edges and their sum is the number of finite edges.
\<close>

theorem classify_edges_tally:
  assumes "length (finite_edges D3) < 2 ^ 32"
  shows "(\<forall>e es tc sc. classify_edges_loop D3 (e # es) (tc, sc) =
            classify_edges_loop D3 es (if spacelike D3 e then (tc, sc + 1) else (tc + 1, sc)))
    \<and> (\<exists>tc sc. classify_edges D3 0 0 = (D3, tc, sc)
          \<and> unat sc = length (filter (spacelike D3) (finite_edges D3))
          \<and> unat tc = length (filter (timelike D3) (finite_edges D3))
          \<and> unat tc + unat sc = length (finite_edges D3))"
proof -
  let ?es = "finite_edges D3"
  have sum: "length (filter (timelike D3) ?es) + length (filter (spacelike D3) ?es) = length ?es"
    by (rule timelike_spacelike_length)
  have tc: "unat (0 + of_nat (length (filter (timelike D3) ?es)) :: unsigned) = length (filter (timelike D3) ?es)"
    using assms sum by (subst unat_add_of_nat) simp_all
  have sc: "unat (0 + of_nat (length (filter (spacelike D3) ?es)) :: unsigned) = length (filter (spacelike D3) ?es)"
    using assms sum by (subst unat_add_of_nat) simp_all
  have step: "classify_edges_loop D3 (e # es) (tc, sc) =
      classify_edges_loop D3 es (if spacelike D3 e then (tc, sc + 1) else (tc + 1, sc))" for e es tc sc
    by (simp add: spacelike_def Let_def)
  have "classify_edges D3 0 0 = (D3, 0 + of_nat (length (filter (timelike D3) ?es)),
      0 + of_nat (length (filter (spacelike D3) ?es)))"
    by (rule classify_edges_eq)
  with tc sc sum step show ?thesis by metis
qed

text \<open>The three edges of the example, counted from zero.\<close>

theorem classify_edges_tally_witness:
  "length (finite_edges example_D3) < 2 ^ 32
   \<and> (\<exists>tc sc. snd (classify_edges example_D3 0 0) = (tc, sc) \<and> unat tc + unat sc = 3)"
proof -
  have l: "length (finite_edges example_D3) < 2 ^ 32" "length (finite_edges example_D3) = 3"
    by (simp_all add: example_D3_def)
  from classify_edges_tally [OF l(1)] obtain tc sc
    where "classify_edges example_D3 0 0 = (example_D3, tc, sc)"
      and "unat tc + unat sc = length (finite_edges example_D3)"
    by blast
  then show ?thesis using l by auto
qed

lemma classify_edges_no_wrap:
  assumes "unat N1_TL + length (filter (timelike D3) (finite_edges D3)) < 2 ^ 32"
    and "unat N1_SL + length (filter (spacelike D3) (finite_edges D3)) < 2 ^ 32"
  shows "\<exists>tc sc. classify_edges D3 N1_TL N1_SL = (D3, tc, sc)
    \<and> unat tc = unat N1_TL + length (filter (timelike D3) (finite_edges D3))
    \<and> unat sc = unat N1_SL + length (filter (spacelike D3) (finite_edges D3))
    \<and> ((unat tc + unat sc = length (finite_edges D3)) = (N1_TL = 0 \<and> N1_SL = 0))"
proof -
  let ?es = "finite_edges D3"
  let ?tc = "N1_TL + of_nat (length (filter (timelike D3) ?es))"
  let ?sc = "N1_SL + of_nat (length (filter (spacelike D3) ?es))"
  have sum: "length (filter (timelike D3) ?es) + length (filter (spacelike D3) ?es) = length ?es"
    by (rule timelike_spacelike_length)
  have tc: "unat ?tc = unat N1_TL + length (filter (timelike D3) ?es)"
    using assms(1) by (rule unat_add_of_nat)
  have sc: "unat ?sc = unat N1_SL + length (filter (spacelike D3) ?es)"
    using assms(2) by (rule unat_add_of_nat)
  have "(unat ?tc + unat ?sc = length ?es) = (unat N1_TL = 0 \<and> unat N1_SL = 0)"
    using sum by (simp add: tc sc) arith
  then have "(unat ?tc + unat ?sc = length ?es) = (N1_TL = 0 \<and> N1_SL = 0)"
    by (simp add: unat_eq_0)
  with tc sc classify_edges_eq [of D3 N1_TL N1_SL] show ?thesis by blast
qed

text \<open>
  Claim C10, amended. The counters are never reset: the values after a call are the initial
  values plus the numbers of finite edges with unequal and with equal endpoint labels,
  modulo \<open>2^32\<close>; as long as neither 32-bit counter wraps, they are these sums exactly,
  and the sum of the counters is the number of finite edges exactly when both counters
  were zero at the call.
\<close>

theorem classify_edges_accumulates:
  "classify_edges D3 N1_TL N1_SL =
     (D3, N1_TL + of_nat (length (filter (timelike D3) (finite_edges D3))),
          N1_SL + of_nat (length (filter (spacelike D3) (finite_edges D3))))
   \<and> (unat N1_TL + length (filter (timelike D3) (finite_edges D3)) < 2 ^ 32
        \<and> unat N1_SL + length (filter (spacelike D3) (finite_edges D3)) < 2 ^ 32
      \<longrightarrow> (\<exists>tc sc. classify_edges D3 N1_TL N1_SL = (D3, tc, sc)
            \<and> unat tc = unat N1_TL + length (filter (timelike D3) (finite_edges D3))
            \<and> unat sc = unat N1_SL + length (filter (spacelike D3) (finite_edges D3))
            \<and> ((unat tc + unat sc = length (finite_edges D3)) = (N1_TL = 0 \<and> N1_SL = 0))))"
  using classify_edges_eq [of D3 N1_TL N1_SL] classify_edges_no_wrap [of N1_TL D3 N1_SL]
  by blast

text \<open>The example with the timelike counter at 5 before the call.\<close>

theorem classify_edges_accumulates_witness:
  "unat (5 :: unsigned) + length (filter (timelike example_D3) (finite_edges example_D3)) < 2 ^ 32
   \<and> unat (0 :: unsigned) + length (filter (spacelike example_D3) (finite_edges example_D3)) < 2 ^ 32
   \<and> (\<exists>tc sc. snd (classify_edges example_D3 5 0) = (tc, sc) \<and> unat tc = 6 \<and> unat sc = 2
        \<and> unat tc + unat sc \<noteq> length (finite_edges example_D3))"
proof -
  have n: "length (filter (timelike example_D3) (finite_edges example_D3)) = 1"
    "length (filter (spacelike example_D3) (finite_edges example_D3)) = 2"
    by code_simp+
  have h: "unat (5 :: unsigned) + length (filter (timelike example_D3) (finite_edges example_D3)) < 2 ^ 32"
    "unat (0 :: unsigned) + length (filter (spacelike example_D3) (finite_edges example_D3)) < 2 ^ 32"
    by (simp_all add: n)
  from classify_edges_accumulates [THEN conjunct2, rule_format, OF conjI [OF h]] obtain tc sc
    where "classify_edges example_D3 5 0 = (example_D3, tc, sc)"
      and "unat tc = unat (5 :: unsigned) + length (filter (timelike example_D3) (finite_edges example_D3))"
      and "unat sc = unat (0 :: unsigned) + length (filter (spacelike example_D3) (finite_edges example_D3))"
      and "(unat tc + unat sc = length (finite_edges example_D3)) = ((5 :: unsigned) = 0 \<and> (0 :: unsigned) = 0)"
    by blast
  then show ?thesis using h n by auto
qed

section \<open>Properties of check_timeslices\<close>

lemma min_max_step_eq:
  "min_max_step D3 c i (mn, mx) =
     (min (info D3 (vertex D3 c i)) mn, max (info D3 (vertex D3 c i)) mx)"
  by (auto simp: min_max_step_def Let_def min_def max_def)

lemma fold_min_max_step:
  "fold (min_max_step D3 c) js (mn, mx) =
     (Min (insert mn (set (map (\<lambda>i. info D3 (vertex D3 c i)) js))),
      Max (insert mx (set (map (\<lambda>i. info D3 (vertex D3 c i)) js))))"
proof (induction js arbitrary: mn mx)
  case Nil
  show ?case by simp
next
  case (Cons j js)
  let ?S = "set (map (\<lambda>i. info D3 (vertex D3 c i)) js)"
  let ?t = "info D3 (vertex D3 c j)"
  have "Min (insert (min ?t mn) ?S) = Min (insert mn (insert ?t ?S))"
    by (cases "?S = {}") (simp_all add: min.commute min.assoc min.left_commute)
  moreover have "Max (insert (max ?t mx) ?S) = Max (insert mx (insert ?t ?S))"
    by (cases "?S = {}") (simp_all add: max.commute max.assoc max.left_commute)
  ultimately show ?case
    by (simp add: min_max_step_eq Cons.IH)
qed

lemma cell_min_max_eq: "cell_min_max D3 c = (min_label D3 c, max_label D3 c)"
proof -
  have "info D3 (vertex D3 c 0) \<in> set (timevalues_of D3 c)"
    by (simp add: timevalues_of_def)
  then have "insert (info D3 (vertex D3 c 0)) (set (timevalues_of D3 c)) = set (timevalues_of D3 c)"
    by auto
  then show ?thesis
    by (simp add: cell_min_max_def Let_def fold_min_max_step min_label_def max_label_def
        timevalues_of_def)
qed

lemma min_label_le_max_label: "min_label D3 c \<le> max_label D3 c"
proof -
  let ?S = "set (timevalues_of D3 c)"
  have x: "info D3 (vertex D3 c 0) \<in> ?S"
    by (simp add: timevalues_of_def)
  have "Min ?S \<le> info D3 (vertex D3 c 0)"
    using x by (intro Min_le) simp_all
  moreover have "info D3 (vertex D3 c 0) \<le> Max ?S"
    using x by (intro Max_ge) simp_all
  ultimately show ?thesis
    unfolding min_label_def max_label_def by (rule order_trans)
qed

lemma word_diff_one_iff:
  fixes mn mx :: unsigned
  assumes "mn \<le> mx"
  shows "(mx - mn \<noteq> 1) = (uint mx - uint mn \<noteq> 1)"
proof -
  have "uint (mx - mn) = uint mx - uint mn"
    using assms by (simp add: uint_sub_lem [symmetric] word_le_def)
  moreover have "(mx - mn = 1) = (uint (mx - mn) = 1)"
    by (simp add: word_uint_eq_iff)
  ultimately show ?thesis by simp
qed

lemma check_loop_eq:
  "check_loop D3 cs (valid, invalid) =
     (valid + of_nat (length (filter (\<lambda>c. \<not> foliation_invalid D3 c) cs)),
      invalid + of_nat (length (filter (foliation_invalid D3) cs)))"
proof (induction cs arbitrary: valid invalid)
  case Nil
  show ?case by simp
next
  case (Cons c cs)
  show ?case
    using word_diff_one_iff [OF min_label_le_max_label, of D3 c]
    by (simp add: Cons.IH cell_min_max_eq foliation_invalid_def)
qed

lemma check_timeslices_eq:
  "check_timeslices D3 output =
     (if is_valid D3 then Inr (of_nat (invalid_count D3) = (0 :: unsigned)) else Inl Assert_D3_is_valid)"
  by (simp add: check_timeslices_def check_loop_eq invalid_count_def)

text \<open>
  Claim C4, as stated, at a triangulation with \<open>2^32\<close> finite cells that all fail the
  structural test: each one increments the 32-bit counter \<open>invalid\<close>, which ends at 0,
  and the function returns true although \<open>2^32\<close> simplices are invalid.
\<close>

theorem check_timeslices_wrap_counterexample:
  "check_timeslices big_D3 False = Inr True \<and> invalid_count big_D3 = 2 ^ 32
   \<and> length (finite_cells big_D3) = 2 ^ 32 \<and> is_valid big_D3"
proof -
  have "foliation_invalid big_D3 = (\<lambda>c. True)"
    by (rule ext) (simp add: foliation_invalid_def big_D3_def)
  then have n: "invalid_count big_D3 = 2 ^ 32"
    by (simp add: invalid_count_def) (simp add: big_D3_def)
  have "(of_nat (2 ^ 32) :: unsigned) = 0"
    by simp
  then show ?thesis
    by (simp add: check_timeslices_eq n) (simp add: big_D3_def)
qed

text \<open>
  Claim C4, amended. On a triangulation that the engine reports valid (the assertion at
  the end of the function), \<open>check_timeslices\<close> returns true if and only if the number
  of invalid finite simplices is a multiple of \<open>2^32\<close>; when that number is below
  \<open>2^32\<close>, in particular when there are fewer than \<open>2^32\<close> finite simplices, it returns
  true if and only if no finite simplex is invalid. A structurally valid simplex is invalid
  when the difference between the largest and the smallest of its four labels is not 1, a
  structurally invalid one always.
\<close>

theorem check_timeslices_iff_no_invalid:
  assumes "is_valid D3"
  shows "check_timeslices D3 output = Inr (2 ^ 32 dvd invalid_count D3)
    \<and> (invalid_count D3 < 2 ^ 32 \<longrightarrow> check_timeslices D3 output = Inr (invalid_count D3 = 0))"
proof -
  have a: "check_timeslices D3 output = Inr (2 ^ 32 dvd invalid_count D3)"
    using assms word_of_nat_eq_0_iff [where 'a = 32, of "invalid_count D3"]
    by (simp add: check_timeslices_eq)
  have "(2 ^ 32 dvd invalid_count D3) = (invalid_count D3 = 0)" if "invalid_count D3 < 2 ^ 32"
    using that by (auto dest: dvd_imp_le)
  with a show ?thesis by simp
qed

text \<open>The example has one invalid cell, the fourth; without it the foliation is valid.\<close>

theorem check_timeslices_iff_no_invalid_witness:
  "is_valid example_D3 \<and> invalid_count example_D3 = 1 \<and> invalid_count example_D3 < 2 ^ 32
   \<and> check_timeslices example_D3 False = Inr False
   \<and> is_valid good_D3 \<and> invalid_count good_D3 = 0 \<and> check_timeslices good_D3 False = Inr True"
proof -
  have v: "is_valid example_D3" "is_valid good_D3"
    by (simp_all add: example_D3_def good_D3_def)
  have n: "invalid_count example_D3 = 1" "invalid_count good_D3 = 0"
    by code_simp+
  show ?thesis
    using check_timeslices_iff_no_invalid [OF v(1), of False]
      check_timeslices_iff_no_invalid [OF v(2), of False] v n
    by simp
qed

section \<open>Properties of the generation of points\<close>

lemma make_2_sphere_loop_eq:
  "make_2_sphere_loop gen r n j (vs, ts) =
     (vs @ map (gen r) [j..<n], ts @ replicate (n - j) (unsigned_of_double r))"
proof (induction "n - j" arbitrary: j vs ts)
  case 0
  then show ?case by (subst make_2_sphere_loop.simps) simp
next
  case (Suc m)
  then have j: "j < n" "m = n - Suc j" by simp_all
  have "[j..<n] = j # [Suc j..<n]" using j by (simp add: upt_conv_Cons)
  moreover have "replicate (n - j) (unsigned_of_double r)
      = unsigned_of_double r # replicate (n - Suc j) (unsigned_of_double r)"
    using j by (simp add: Suc_diff_Suc flip: replicate_Suc)
  ultimately show ?case
    using j Suc.hyps(1) [OF j(2)] by (subst make_2_sphere_loop.simps) simp
qed

lemma unsigned_of_double_radius: "unsigned_of_double (1 + real i) = of_nat (i + 1)"
proof -
  have "\<lfloor>1 + real i\<rfloor> = 1 + int i" by linarith
  then show ?thesis by (simp add: unsigned_of_double_def)
qed

lemma unat_scast_points:
  fixes w :: "32 word"
  assumes "unat w < 2 ^ 31"
  shows "unat (scast w :: 64 word) = unat w"
proof -
  have "int (unat w) < int (2 ^ 31)" using assms by (simp only: of_nat_less_iff)
  then have u: "uint w < 2 ^ 31" by simp
  have "sint w = signed_take_bit 31 (uint w)" by (simp add: sint_uint)
  also have "\<dots> = uint w"
  proof (rule signed_take_bit_int_eq_self)
    have "- (2 ^ 31) \<le> (0 :: int)" by simp
    also have "0 \<le> uint w" by (rule uint_nonnegative)
    finally show "- (2 ^ 31) \<le> uint w" .
    show "uint w < 2 ^ 31" by (rule u)
  qed
  finally have s: "sint w = uint w" .
  have "uint (ucast w :: 64 word) = take_bit 64 (uint w)"
    by (simp add: unsigned_ucast_eq)
  also have "\<dots> = uint w"
  proof (rule take_bit_int_eq_self)
    show "0 \<le> uint w" by (rule uint_nonnegative)
    have "uint w < 2 ^ 31" by (rule u)
    also have "(2 :: int) ^ 31 < 2 ^ 64" by simp
    finally show "uint w < 2 ^ 64" .
  qed
  finally have "uint (word_of_int (uint w) :: 64 word) = uint w"
    by (simp only: ucast_eq)
  then have "uint (scast w :: 64 word) = uint w"
    by (simp only: scast_eq s)
  then have "nat (uint (scast w :: 64 word)) = nat (uint w)"
    by (rule arg_cong)
  then show ?thesis
    by (simp only: unat_eq_nat_uint)
qed

lemma sint_nonneg_unat:
  fixes w :: "32 word"
  assumes "unat w < 2 ^ 31"
  shows "\<not> sint w < 0"
proof -
  have "int (unat w) < int (2 ^ 31)" using assms by (simp only: of_nat_less_iff)
  then have u: "uint w < 2 ^ 31" by simp
  have "sint w = signed_take_bit 31 (uint w)" by (simp add: sint_uint)
  also have "\<dots> = uint w"
  proof (rule signed_take_bit_int_eq_self)
    have "- (2 ^ 31) \<le> (0 :: int)" by simp
    also have "0 \<le> uint w" by (rule uint_nonnegative)
    finally show "- (2 ^ 31) \<le> uint w" .
    show "uint w < 2 ^ 31" by (rule u)
  qed
  finally have "sint w = uint w" .
  then show ?thesis using uint_nonnegative [of w] by simp
qed



lemma make_2_sphere_eq:
  fixes n :: "32 word"
  assumes "unat n < 2 ^ 31"
  shows "make_2_sphere gen vt n r out =
     Inr (fst vt @ map (gen r) [0..<unat n], snd vt @ replicate (unat n) (unsigned_of_double r))"
  using sint_nonneg_unat [OF assms]
  by (cases vt) (simp add: make_2_sphere_def make_2_sphere_loop_eq unat_scast_points [OF assms])

lemma spheres_loop_eq:
  fixes points :: "32 word"
  assumes "unat points < 2 ^ 31"
  shows "spheres_loop gen points timeslices out i (vs, ts) =
     Inr (vs @ concat (map (\<lambda>i. map (gen (1 + real i)) [0..<unat points]) [i..<unat timeslices]),
          ts @ concat (map (\<lambda>i. replicate (unat points) (of_nat (i + 1))) [i..<unat timeslices]))"
proof (induction "unat timeslices - i" arbitrary: i vs ts)
  case 0
  then show ?case by (subst spheres_loop.simps) simp
next
  case (Suc m)
  then have i: "i < unat timeslices" "m = unat timeslices - Suc i" by simp_all
  have "[i..<unat timeslices] = i # [Suc i..<unat timeslices]"
    using i by (simp add: upt_conv_Cons)
  then show ?case
    using i Suc.hyps(1) [OF i(2)]
    by (subst spheres_loop.simps)
      (simp add: make_2_sphere_eq [OF assms] Let_def unsigned_of_double_radius)
qed




lemma unat_times_4:
  fixes spt :: unsigned
  assumes "unat spt * 4 < 2 ^ 31"
  shows "unat (spt * 4) = unat spt * 4"
proof -
  have "unat spt * unat (4 :: unsigned) < 2 ^ LENGTH(32)"
    using assms by simp
  then have "unat (spt * 4) = unat spt * unat (4 :: unsigned)"
    by (simp only: unat_mult_lem)
  then show ?thesis by simp
qed

lemma generate_points_eq:
  fixes spt timeslices :: unsigned
  assumes "unat spt * 4 < 2 ^ 31" and "\<not> sint (spt * 4 * timeslices) < 0"
  shows "generate_points gen spt timeslices out =
     Inr (concat (map (\<lambda>i. map (gen (1 + real i)) [0..<unat spt * 4]) [0..<unat timeslices]),
          concat (map (\<lambda>i. replicate (unat spt * 4) (of_nat (i + 1))) [0..<unat timeslices]))"
proof -
  have p: "unat (spt * 4) < 2 ^ 31" using assms(1) by (simp add: unat_times_4)
  show ?thesis
    using assms(2)
    by (simp add: generate_points_def Let_def spheres_loop_eq [OF p] unat_times_4 [OF assms(1)])
qed

lemma generate_points_overflow:
  "sint (spt * 4 * timeslices) < 0 \<Longrightarrow> generate_points gen spt timeslices out = Inl Length_error"
  by (simp add: generate_points_def Let_def)


lemma length_concat_const:
  "\<forall>x\<in>set xs. length (f x) = n \<Longrightarrow> length (concat (map f xs)) = n * length xs"
  by (induction xs) simp_all

lemma points_fit:
  fixes spt timeslices :: unsigned
  assumes "timeslices \<noteq> 0" and "unat spt * 4 * unat timeslices < 2 ^ 31"
  shows "unat spt * 4 < 2 ^ 31 \<and> \<not> sint (spt * 4 * timeslices) < 0"
proof -
  have "unat timeslices \<noteq> 0"
    using assms(1) by (simp add: unat_eq_0)
  then have t: "1 \<le> unat timeslices"
    by simp
  have "(unat spt * 4) * 1 \<le> (unat spt * 4) * unat timeslices"
    using t by (rule mult_le_mono2)
  then have "unat spt * 4 \<le> unat spt * 4 * unat timeslices"
    by (simp only: nat_mult_1_right)
  then have a: "unat spt * 4 < 2 ^ 31"
    using assms(2) by (rule le_less_trans)
  have "unat (spt * 4) * unat timeslices < 2 ^ LENGTH(32)"
    using assms(2) by (simp add: unat_times_4 [OF a])
  then have "unat (spt * 4 * timeslices) = unat (spt * 4) * unat timeslices"
    by (simp only: unat_mult_lem)
  then have "unat (spt * 4 * timeslices) < 2 ^ 31"
    using assms(2) by (simp add: unat_times_4 [OF a])
  then have "\<not> sint (spt * 4 * timeslices) < 0"
    by (rule sint_nonneg_unat)
  with a show ?thesis by simp
qed

text \<open>
  Claim C8, as stated, at two inputs that pass the assertion. At \<open>2^30\<close> simplices in
  one timeslice the 32-bit product \<open>simplices_per_timeslice * 4\<close> is 0 and no point is
  generated, where the claim has \<open>2^32\<close> pairs. At \<open>2^29\<close> simplices in \<open>2^29\<close>
  timeslices \<open>points\<close> is 4 and the 32-bit product \<open>points * timeslices\<close> is
  \<open>-2^31\<close> as an \<open>int\<close>: \<open>vertices.reserve(total_points)\<close> throws before any pair
  is appended, where the claim has \<open>2^31\<close> pairs.
\<close>

theorem point_generation_overflow_counterexample:
  "generate_points (\<lambda>r j. ()) (1073741824 div 1) 1 False = Inr ([], [])
   \<and> unat (1073741824 :: unsigned) div unat (1 :: unsigned) * 4 * unat (1 :: unsigned) = 4294967296
   \<and> (1 :: unsigned) \<le> 1073741824 div 1
   \<and> generate_points (\<lambda>r j. ()) (536870912 div 536870912) 536870912 False = Inl Length_error
   \<and> unat (536870912 div 536870912 :: unsigned) * 4 = 4
   \<and> sint (536870912 div 536870912 * 4 * 536870912 :: unsigned) = - 2147483648
   \<and> (1 :: unsigned) \<le> 536870912 div 536870912"
proof -
  have z: "(1073741824 div 1 * 4 :: unsigned) = 0" by simp
  have l: "spheres_loop (\<lambda>r j. ()) (0 :: 32 word) 1 False 0 ([], []) = Inr ([], [])"
    by (simp add: spheres_loop_eq)
  have "generate_points (\<lambda>r j. ()) (1073741824 div 1) 1 False =
      (if sint (0 :: unsigned) < 0 then Inl Length_error
       else spheres_loop (\<lambda>r j. ()) (0 :: 32 word) 1 False 0 ([], []))"
    by (simp only: generate_points_def Let_def z mult_zero_left)
  then have a: "generate_points (\<lambda>r j. ()) (1073741824 div 1) 1 False = Inr ([], [])"
    by (simp add: l)
  have s: "sint (536870912 div 536870912 * 4 * 536870912 :: unsigned) = - 2147483648"
    by simp
  then have "sint (536870912 div 536870912 * 4 * 536870912 :: unsigned) < 0"
    by simp
  then have b: "generate_points (\<lambda>r j. ()) (536870912 div 536870912) 536870912 False
      = Inl Length_error"
    by (rule generate_points_overflow)
  have c: "unat (536870912 div 536870912 :: unsigned) * 4 = 4"
    "(1 :: unsigned) \<le> 536870912 div 536870912"
    "unat (1073741824 :: unsigned) div unat (1 :: unsigned) * 4 * unat (1 :: unsigned) = 4294967296"
    "(1 :: unsigned) \<le> 1073741824 div 1"
    by simp_all
  from a b c s show ?thesis by (intro conjI)
qed

text \<open>
  Claim C8, amended. \<open>points\<close> and \<open>total_points\<close> are \<open>int\<close>s computed in 32 bits.
  When \<open>(simplices / timeslices) * 4\<close> is below \<open>2^31\<close>, so that it fits \<open>points\<close>,
  and the 32-bit product \<open>points * timeslices\<close> is not negative as an \<open>int\<close>, so that
  \<open>reserve\<close> does not throw, the generation appends, for every index \<open>i\<close> below
  \<open>timeslices\<close> in turn, exactly that many points of the generator of radius \<open>1 + i\<close>,
  each with the label \<open>i + 1\<close>, the truncated radius; both vectors end with
  \<open>points * timeslices\<close> entries. Both conditions hold when \<open>points * timeslices\<close> is
  below \<open>2^31\<close>. When the 32-bit product is negative as an \<open>int\<close>, the generation stops
  on \<open>std::length_error\<close>. A sphere of 0 points leaves the vectors as they are.
\<close>

theorem point_generation_counts:
  fixes simplices timeslices :: unsigned
  shows "(timeslices \<noteq> 0 \<and> unat (simplices div timeslices) * 4 < 2 ^ 31
        \<and> \<not> sint (simplices div timeslices * 4 * timeslices) < 0
      \<longrightarrow> generate_points gen (simplices div timeslices) timeslices output =
            Inr (concat (map (\<lambda>i. map (gen (1 + real i)) [0..<unat (simplices div timeslices) * 4])
                           [0..<unat timeslices]),
                 concat (map (\<lambda>i. replicate (unat (simplices div timeslices) * 4) (of_nat (i + 1)))
                           [0..<unat timeslices]))
          \<and> length (concat (map (\<lambda>i. map (gen (1 + real i)) [0..<unat (simplices div timeslices) * 4])
                           [0..<unat timeslices]))
               = unat (simplices div timeslices) * 4 * unat timeslices
          \<and> length (concat (map (\<lambda>i. replicate (unat (simplices div timeslices) * 4) (of_nat (i + 1) :: unsigned))
                           [0..<unat timeslices]))
               = unat (simplices div timeslices) * 4 * unat timeslices
          \<and> (\<forall>i<unat timeslices. unsigned_of_double (1 + real i) = of_nat (i + 1)
                \<and> unat (of_nat (i + 1) :: unsigned) = i + 1))
    \<and> (timeslices \<noteq> 0 \<and> unat (simplices div timeslices) * 4 * unat timeslices < 2 ^ 31
      \<longrightarrow> unat (simplices div timeslices) * 4 < 2 ^ 31
          \<and> \<not> sint (simplices div timeslices * 4 * timeslices) < 0)
    \<and> (sint (simplices div timeslices * 4 * timeslices) < 0
      \<longrightarrow> generate_points gen (simplices div timeslices) timeslices output = Inl Length_error)
    \<and> unat (simplices div timeslices) = unat simplices div unat timeslices
    \<and> make_2_sphere gen ([], []) 0 radius output = Inr ([], [])"
proof -
  let ?n = "unat (simplices div timeslices) * 4"
  have l1: "length (concat (map (\<lambda>i. map (gen (1 + real i)) [0..<?n]) [0..<unat timeslices]))
      = ?n * unat timeslices"
    using length_concat_const [of "[0..<unat timeslices]" "\<lambda>i. map (gen (1 + real i)) [0..<?n]" ?n]
    by simp
  have l2: "length (concat (map (\<lambda>i. replicate ?n (of_nat (i + 1) :: unsigned)) [0..<unat timeslices]))
      = ?n * unat timeslices"
    using length_concat_const [of "[0..<unat timeslices]" "\<lambda>i. replicate ?n (of_nat (i + 1) :: unsigned)" ?n]
    by simp
  have lab: "unat (of_nat (i + 1) :: unsigned) = i + 1" if "i < unat timeslices" for i
  proof -
    have "unat timeslices < 2 ^ 32" using unsigned_less [of timeslices] by simp
    then have "i + 1 < 2 ^ 32" using that by simp
    then show ?thesis by (simp only: unat_of_nat) simp
  qed
  have z: "make_2_sphere gen ([], []) 0 radius output = Inr ([], [])"
    by (simp add: make_2_sphere_eq)
  have d: "unat (simplices div timeslices) = unat simplices div unat timeslices"
    by (simp add: unat_div)
  have g: "generate_points gen (simplices div timeslices) timeslices output =
            Inr (concat (map (\<lambda>i. map (gen (1 + real i)) [0..<?n]) [0..<unat timeslices]),
                 concat (map (\<lambda>i. replicate ?n (of_nat (i + 1))) [0..<unat timeslices]))"
    if "unat (simplices div timeslices) * 4 < 2 ^ 31"
      and "\<not> sint (simplices div timeslices * 4 * timeslices) < 0"
    using that by (rule generate_points_eq)
  have f: "unat (simplices div timeslices) * 4 < 2 ^ 31
          \<and> \<not> sint (simplices div timeslices * 4 * timeslices) < 0"
    if "timeslices \<noteq> 0" and "unat (simplices div timeslices) * 4 * unat timeslices < 2 ^ 31"
    using that by (rule points_fit)
  have o: "generate_points gen (simplices div timeslices) timeslices output = Inl Length_error"
    if "sint (simplices div timeslices * 4 * timeslices) < 0"
    using that by (rule generate_points_overflow)
  have labs: "\<forall>i<unat timeslices. unsigned_of_double (1 + real i) = of_nat (i + 1)
                \<and> unat (of_nat (i + 1) :: unsigned) = i + 1"
    using lab by (simp only: unsigned_of_double_radius) simp
  from g f o labs l1 l2 z d show ?thesis by blast
qed

text \<open>
  2 simplices in 2 timeslices: four points with label 1, then four with label 2.
\<close>

theorem point_generation_counts_witness:
  "(2 :: unsigned) \<noteq> 0 \<and> unat (2 div 2 :: unsigned) * 4 < 2 ^ 31
   \<and> \<not> sint (2 div 2 * 4 * 2 :: unsigned) < 0
   \<and> generate_points (\<lambda>r j. ()) (2 div 2) 2 False
       = Inr ([(), (), (), (), (), (), (), ()], [1, 1, 1, 1, 2, 2, 2, 2])"
proof -
  have h: "(2 :: unsigned) \<noteq> 0 \<and> unat (2 div 2 :: unsigned) * 4 < 2 ^ 31
        \<and> \<not> sint (2 div 2 * 4 * 2 :: unsigned) < 0"
    by simp
  have u: "[0..<unat (2 :: unsigned)] = [0, 1]" "unat (2 div 2 :: unsigned) * 4 = 4"
    "[0..<4] = [0, 1, 2, 3]" "[0..<2] = [0, 1]"
    by code_simp+
  have r: "replicate 4 x = [x, x, x, x]" for x :: unsigned
    by (simp add: numeral_eq_Suc)
  from point_generation_counts [THEN conjunct1, rule_format, OF h, of "\<lambda>r j. ()" False]
  show ?thesis using h by (simp add: u r)
qed

section \<open>Properties of fix_timeslices\<close>







lemma fix_step_invalid_cell:
  "\<not> cell_is_valid D3 cit \<Longrightarrow> fix_step eng D3 cit max_vertex = (D3, max_vertex)"
  by (simp add: fix_step_def fix_cell_def)

lemma stale_D3_cells:
  "fix_cell stale_D3 0 0 = (3, None)" "next_cell stale_D3 0 = Some 1"
  "fix_cell stale_D3 1 3 = (3, Some 2)" "next_cell stale_D3 1 = None"
  "finite_cells stale_D3 = [0, 1]"
  by code_simp+

lemma stale_D3_cells_Suc:
  "fix_cell stale_D3 (Suc 0) 3 = (3, Some 2)" "next_cell stale_D3 (Suc 0) = None"
  using stale_D3_cells(3,4) by simp_all

lemma fix_timeslices_stale_D3:
  "fix_timeslices eng stale_D3 out =
     (case next_cell (engine_remove eng stale_D3 2) 1 of
        None \<Rightarrow> Some (engine_remove eng stale_D3 2)
      | Some c \<Rightarrow> fix_from eng (engine_remove eng stale_D3 2) c 3)"
proof -
  have "fix_timeslices eng stale_D3 out = fix_from eng stale_D3 0 0"
    by (simp add: fix_timeslices_def stale_D3_cells)
  also have "\<dots> = fix_from eng stale_D3 1 3"
    by (subst fix_from.simps) (simp add: fix_step_def stale_D3_cells stale_D3_cells_Suc)
  also have "\<dots> = (case next_cell (engine_remove eng stale_D3 2) 1 of
        None \<Rightarrow> Some (engine_remove eng stale_D3 2)
      | Some c \<Rightarrow> fix_from eng (engine_remove eng stale_D3 2) c 3)"
    by (subst fix_from.simps) (simp add: fix_step_def stale_D3_cells stale_D3_cells_Suc)
  finally show ?thesis .
qed



text \<open>
  Claim C1 at two cells. The first cell has a valid foliation and leaves \<open>max_vertex\<close> at
  3. The second cell, the next one the iterator meets, is structurally valid, has the
  labels 3, 1, 1, 1 and so spans two timeslices; its latest vertex is vertex 0, for which
  \<open>max_vertex\<close> is not written, and the pass removes its vertex 3, which has label 1:
  whatever the engine, the first removal of the pass is that of vertex 2, and the pass
  goes on from the triangulation the engine returns. With an engine that deletes the cells
  around the removed vertex the pass ends there, with an engine that changes nothing it
  ends on the triangulation as it was.
\<close>

theorem fix_timeslices_stale_max_vertex:
  "fix_cell stale_D3 0 0 = (3, None)
   \<and> next_cell stale_D3 0 = Some 1
   \<and> fix_cell stale_D3 1 3 = (3, Some 2)
   \<and> cell_is_valid stale_D3 1
   \<and> timevalues_of stale_D3 1 = [3, 1, 1, 1]
   \<and> max_label stale_D3 1 = 3 \<and> min_label stale_D3 1 = 1
   \<and> vertex stale_D3 1 0 = 4 \<and> info stale_D3 4 = 3
   \<and> vertex stale_D3 1 3 = 2 \<and> info stale_D3 2 = 1
   \<and> fix_timeslices eng stale_D3 output =
       (case next_cell (engine_remove eng stale_D3 2) 1 of
          None \<Rightarrow> Some (engine_remove eng stale_D3 2)
        | Some c \<Rightarrow> fix_from eng (engine_remove eng stale_D3 2) c 3)
   \<and> fix_timeslices drop_engine stale_D3 output = Some (stale_D3\<lparr>finite_cells := []\<rparr>)
   \<and> fix_timeslices idle_engine stale_D3 output = Some stale_D3"
proof -
  have b: "cell_is_valid stale_D3 1" "timevalues_of stale_D3 1 = [3, 1, 1, 1]"
    "max_label stale_D3 1 = 3" "min_label stale_D3 1 = 1"
    "vertex stale_D3 1 0 = 4" "info stale_D3 4 = 3"
    "vertex stale_D3 1 3 = 2" "info stale_D3 2 = 1"
    by code_simp+
  have "filter (\<lambda>c. 2 \<notin> set (map (vertex stale_D3 c) [0..<4])) (finite_cells stale_D3) = []"
    by code_simp
  then have d: "engine_remove drop_engine stale_D3 2 = stale_D3\<lparr>finite_cells := []\<rparr>"
    by (simp add: drop_engine_def)
  have "next_cell (stale_D3\<lparr>finite_cells := []\<rparr>) 1 = None"
    by (simp add: next_cell_def)
  with d have e: "fix_timeslices drop_engine stale_D3 output = Some (stale_D3\<lparr>finite_cells := []\<rparr>)"
    by (simp add: fix_timeslices_stale_D3)
  have "engine_remove idle_engine stale_D3 2 = stale_D3"
    by (simp add: idle_engine_def)
  then have f: "fix_timeslices idle_engine stale_D3 output = Some stale_D3"
    by (simp add: fix_timeslices_stale_D3 stale_D3_cells_Suc)
  show ?thesis
    using b e f fix_timeslices_stale_D3 [of eng "output"]
    by (simp add: stale_D3_cells stale_D3_cells_Suc)
qed

section \<open>Properties of the repair loop and of make_S3_triangulation\<close>


lemma foliation_invalid_cell_info [simp]:
  "foliation_invalid (D3\<lparr>cell_info := f\<rparr>) = foliation_invalid D3"
  by (rule ext) (simp add: foliation_invalid_def max_label_def min_label_def timevalues_of_def)

lemma invalid_count_cell_info [simp]:
  "invalid_count (D3\<lparr>cell_info := f\<rparr>) = invalid_count D3"
  by (simp add: invalid_count_def)

lemma check_timeslices_cell_info [simp]:
  "check_timeslices (D3\<lparr>cell_info := f\<rparr>) out = check_timeslices D3 out"
  by (simp add: check_timeslices_eq)




















end
